theory Spec2Isabelle
  imports Complex_Main "HOL-Library.Sublist"
begin

section \<open>Python strings and lists\<close>

text \<open>
  A Python \<open>str\<close> is modelled as a \<^typ>\<open>string\<close>: a list of characters whose code points
  lie below 256.  The operations below are the ones the browser and its privacy modules
  use: \<open>sub in s\<close>, \<open>s.startswith(t)\<close>, \<open>s.strip()\<close>, \<open>s.lower()\<close>, \<open>any(...)\<close> and the
  slice \<open>xs[:k]\<close>.
\<close>

text \<open>\<open>sub in s\<close>: \<open>sub\<close> occurs in \<open>s\<close> as a contiguous run of characters.\<close>

fun py_in :: "string \<Rightarrow> string \<Rightarrow> bool" where
  "py_in sub [] = (sub = [])"
| "py_in sub (c # s) = (prefix sub (c # s) \<or> py_in sub s)"

text \<open>\<open>s.startswith(t)\<close>.\<close>

definition startswith :: "string \<Rightarrow> string \<Rightarrow> bool" where
  "startswith s t = prefix t s"

text \<open>
  \<open>c.isspace()\<close> for a code point below 256: TAB to CR, the four separators FS to US, the
  space, NEL and the no-break space.
\<close>

definition py_isspace :: "char \<Rightarrow> bool" where
  "py_isspace c =
     (let n = (of_char c :: nat)
      in (9 \<le> n \<and> n \<le> 13) \<or> (28 \<le> n \<and> n \<le> 32) \<or> n = 133 \<or> n = 160)"

text \<open>\<open>s.strip()\<close>: whitespace removed at both ends.\<close>

definition strip :: "string \<Rightarrow> string" where
  "strip s = rev (dropWhile py_isspace (rev (dropWhile py_isspace s)))"

text \<open>\<open>any(bs)\<close>.\<close>

primrec py_any :: "bool list \<Rightarrow> bool" where
  "py_any [] = False"
| "py_any (b # bs) = (b \<or> py_any bs)"

text \<open>
  The slice \<open>xs[:k]\<close>: a negative \<open>k\<close> counts from the end of the list, and a bound
  outside the list is clipped; a slice never raises.
\<close>

definition slice_to :: "'a list \<Rightarrow> int \<Rightarrow> 'a list" where
  "slice_to xs k = (if k < 0 then take (nat (int (length xs) + k)) xs else take (nat k) xs)"

section \<open>privacy/cookie\_manager.py\<close>

text \<open>Of a cookie, \<open>should_accept_cookie\<close> reads the \<open>domain\<close> attribute only.\<close>

record cookie =
  domain :: string

record cookie_manager =
  cookie_policy :: string

text \<open>\<open>cookie_manager.__init__\<close>: the policy is one of the strings
  \<open>block_all\<close>, \<open>block_third_party\<close>, \<open>allow_all\<close>, and starts as \<open>block_third_party\<close>.\<close>

definition cookie_manager_init :: cookie_manager where
  "cookie_manager_init = \<lparr>cookie_policy = ''block_third_party''\<rparr>"

definition should_accept_cookie :: "cookie_manager \<Rightarrow> cookie \<Rightarrow> string \<Rightarrow> bool" where
  "should_accept_cookie self c d =
     (if cookie_policy self = ''block_all'' then False
      else if cookie_policy self = ''block_third_party'' then py_in d (domain c)
      else True)"

section \<open>privacy/fingerprint\_protector.py\<close>

text \<open>
  The module draws from Python's global \<open>random\<close> generator.  The generator is modelled as
  an injected source: a sequence of natural numbers together with the position of the
  next draw.  \<open>random.choice(seq)\<close> raises \<open>IndexError\<close> on an empty sequence and otherwise
  returns the element at an index below \<open>len(seq)\<close>, advancing the generator.
\<close>

datatype py_error = IndexError

type_synonym rng = "(nat \<Rightarrow> nat) \<times> nat"

definition choice :: "'a list \<Rightarrow> rng \<Rightarrow> py_error + ('a \<times> rng)" where
  "choice seq g =
     (case seq of
        [] \<Rightarrow> Inl IndexError
      | _ # _ \<Rightarrow> Inr (seq ! (fst g (snd g) mod length seq), (fst g, snd g + 1)))"

text \<open>Sequencing of calls that may raise: the first exception ends the computation.\<close>

definition bind_err :: "'e + 'a \<Rightarrow> ('a \<Rightarrow> 'e + 'b) \<Rightarrow> 'e + 'b" where
  "bind_err m f = (case m of Inl e \<Rightarrow> Inl e | Inr a \<Rightarrow> f a)"

text \<open>
  The candidate pools are attributes set by \<open>__init__\<close>; the attributes \<open>screen_resolution\<close>,
  \<open>timezone\<close>, \<open>language\<close> and \<open>plugins\<close> carry the suffix \<open>_pool\<close> here, the plain names
  being the keys of the fingerprint.
\<close>

record FingerPrintProtector =
  user_agents :: "string list"
  screen_resolution_pool :: "string list"
  timezone_pool :: "string list"
  language_pool :: "string list"
  plugins_pool :: "string list"

definition FingerPrintProtector_init :: FingerPrintProtector where
  "FingerPrintProtector_init = \<lparr>
     user_agents =
       [''Mozilla/5.0 (Macintosh; Intel Mac OS X 10_15_7) AppleWebKit/537.36'',
        ''Mozilla/5.0 (Windows NT 10.0; Win64; x64) AppleWebKit/537.36'',
        ''Mozilla/5.0 (X11; Linux x86_64) AppleWebKit/537.36'',
        ''Mozilla/5.0 (iPhone; CPU iPhone OS 14_0 like Mac OS X) AppleWebKit/605.1.15''],
     screen_resolution_pool =
       [''1920x1080'', ''1366x768'', ''1280x720'', ''1024x768'', ''800x600'', ''640x480'',
        ''320x240''],
     timezone_pool =
       [''America/New_York'', ''America/Los_Angeles'', ''America/Chicago'', ''America/Denver'',
        ''America/Phoenix'', ''America/New_York'', ''America/Los_Angeles'', ''America/Chicago'',
        ''America/Denver'', ''America/Phoenix'', ''America/New_York'', ''America/Los_Angeles''],
     language_pool = [''en-US'', ''en-GB'', ''en-CA'', ''en-AU'', ''en-NZ'', ''en-ZA''],
     plugins_pool = [''Flash'', ''Java'', ''Silverlight'', ''QuickTime'', ''RealPlayer'']\<rparr>"

text \<open>
  The fingerprint is the dictionary \<open>generate_random_fingerprint\<close> returns; its keys are
  fixed by the dictionary display, so it is a record.  \<open>pixel_ratio\<close> is one of the numbers
  1, 2 and 1.5.
\<close>

record fingerprint =
  user_agent :: string
  screen_resolution :: string
  timezone :: string
  language :: string
  plugins :: string
  platform :: string
  color_depth :: string
  pixel_ratio :: rat
  webgl_vendor :: string
  webgl_renderer :: string
  webgl_version :: string
  webgl_extensions :: string
  webgl_shading_language_version :: string

text \<open>
  The dictionary display evaluates its fifteen values in order.  The keys \<open>webgl_vendor\<close>
  and \<open>webgl_renderer\<close> occur twice: both draws are made and the later value is kept.
\<close>

definition generate_random_fingerprint ::
  "FingerPrintProtector \<Rightarrow> rng \<Rightarrow> py_error + (fingerprint \<times> rng)" where
  "generate_random_fingerprint self g0 =
     bind_err (choice (user_agents self) g0) (\<lambda>(ua, g1).
     bind_err (choice (screen_resolution_pool self) g1) (\<lambda>(sr, g2).
     bind_err (choice (timezone_pool self) g2) (\<lambda>(tz, g3).
     bind_err (choice (language_pool self) g3) (\<lambda>(la, g4).
     bind_err (choice (plugins_pool self) g4) (\<lambda>(pl, g5).
     bind_err (choice [''MacIntel'', ''Win32'', ''Linux x86_64'', ''iPhone'', ''iPad''] g5) (\<lambda>(pf, g6).
     bind_err (choice [''8'', ''16'', ''24'', ''32''] g6) (\<lambda>(cd, g7).
     bind_err (choice [1, 2, 3 / 2] g7) (\<lambda>(pr, g8).
     bind_err (choice [''Google'', ''Mozilla'', ''Apple'', ''Microsoft''] g8) (\<lambda>(wv1, g9).
     bind_err (choice [''Intel'', ''NVIDIA'', ''AMD'', ''Apple''] g9) (\<lambda>(wr1, g10).
     bind_err (choice [''1'', ''2'', ''3''] g10) (\<lambda>(wver, g11).
     bind_err (choice [''WEBGL_depth_texture'', ''WEBGL_draw_buffers'', ''WEBGL_lose_context''] g11)
       (\<lambda>(wext, g12).
     bind_err (choice [''1.0'', ''1.1'', ''1.2'', ''1.3'', ''1.4'', ''1.5''] g12) (\<lambda>(wsl, g13).
     bind_err (choice [''Google'', ''Mozilla'', ''Apple'', ''Microsoft''] g13) (\<lambda>(wv2, g14).
     bind_err (choice [''Intel'', ''NVIDIA'', ''AMD'', ''Apple''] g14) (\<lambda>(wr2, g15).
     Inr (\<lparr>user_agent = ua, screen_resolution = sr, timezone = tz, language = la,
           plugins = pl, platform = pf, color_depth = cd, pixel_ratio = pr,
           webgl_vendor = wv2, webgl_renderer = wr2, webgl_version = wver,
           webgl_extensions = wext, webgl_shading_language_version = wsl\<rparr>, g15))))))))))))))))"

text \<open>
  A dictionary of headers is the list of its items in insertion order; \<^const>\<open>map_of\<close>
  looks a key up.
\<close>

type_synonym headers = "(string \<times> string) list"

definition get_headers_with_random_fingerprints ::
  "FingerPrintProtector \<Rightarrow> rng \<Rightarrow> py_error + (headers \<times> rng)" where
  "get_headers_with_random_fingerprints self g =
     bind_err (generate_random_fingerprint self g) (\<lambda>(fp, g').
     Inr ([(''User-Agent'', user_agent fp),
           (''Accept'', ''text/html, application/xhtml+xml, application/xml;q=0.9, */*;q=0.8''),
           (''Accept-Language'', language fp),
           (''Accept-Encoding'', ''gzip, deflate''),
           (''DNT'', ''1''),
           (''Connection'', ''Keep-alive''),
           (''Upgrade-Insecure-Requests'', ''1''),
           (''Sec-CH-UA'', ''\"Not_A Brand\";v=\"8\", \"Chromium\";v=\"120\"''),
           (''Sec-CH-UA-Mobile'', ''?0''),
           (''Sec-CH-UA-Platform'', ''\"'' @ platform fp @ ''\"'')], g'))"

section \<open>privacy/enhanced\_protector.py\<close>

record EnhancedPrivacyProtector =
  trackers :: "string set"
  ad_domains :: "string set"
  search_trackers :: "string set"

definition EnhancedPrivacyProtector_init :: EnhancedPrivacyProtector where
  "EnhancedPrivacyProtector_init = \<lparr>
     trackers =
       {''facebook.com'', ''facebook.net'', ''fbcdn.net'',
        ''instagram.com'', ''instagram.net'',
        ''twitter.com'', ''twimg.com'', ''t.co'',
        ''linkedin.com'', ''licdn.com'',
        ''tiktok.com'', ''tiktokcdn.com'',
        ''google-analytics.com'', ''googletagmanager.com'',
        ''googleadservices.com'', ''doubleclick.net'',
        ''googlesyndication.com'', ''google.com/ads'',
        ''amazon-adsystem.com'', ''amazon.com/ads'',
        ''bing.com/ads'', ''yahoo.com/ads'',
        ''hotjar.com'', ''mixpanel.com'', ''amplitude.com'',
        ''segment.com'', ''optimizely.com'', ''crazyegg.com'',
        ''adnxs.com'', ''adsystem.com'', ''adtech.com'',
        ''criteo.com'', ''taboola.com'', ''outbrain.com'',
        ''adroll.com'', ''adform.com'', ''pubmatic.com''},
     ad_domains =
       {''googlesyndication.com'', ''doubleclick.net'', ''amazon-adsystem.com'',
        ''adnxs.com'', ''adsystem.com'', ''adtech.com''},
     search_trackers =
       {''google.com/search'', ''bing.com/search'', ''yahoo.com/search'',
        ''duckduckgo.com/search'', ''search.yahoo.com''}\<rparr>"

text \<open>\<open>clean_html\<close> returns the document as it is.\<close>

definition clean_html :: "EnhancedPrivacyProtector \<Rightarrow> string \<Rightarrow> string" where
  "clean_html self html_content = html_content"

definition get_privacy_headers :: "EnhancedPrivacyProtector \<Rightarrow> headers" where
  "get_privacy_headers self =
     [(''User-Agent'', ''Mozilla/5.0 (Macintosh; Intel Mac OS X 10_15_7) AppleWebKit/537.36 (KHTML, like Gecko) Chrome/120.0.0.0 Safari/537.36''),
      (''Accept'', ''text/html,application/xhtml+xml,application/xml;q=0.9,image/webp,*/*;q=0.8''),
      (''Accept-Language'', ''en-US,en;q=0.5''),
      (''Accept-Encoding'', ''gzip, deflate''),
      (''DNT'', ''1''),
      (''Connection'', ''keep-alive''),
      (''Upgrade-Insecure-Requests'', ''1''),
      (''Sec-Fetch-Dest'', ''document''),
      (''Sec-Fetch-Mode'', ''navigate''),
      (''Sec-Fetch-Site'', ''none'')]"

section \<open>browser.py\<close>

text \<open>
  \<open>xs[i]\<close> raises \<open>IndexError\<close> unless \<open>-len(xs) \<le> i < len(xs)\<close>; below zero the position
  is \<open>len(xs) + i\<close>.
\<close>

definition py_index :: "'a list \<Rightarrow> int \<Rightarrow> py_error + 'a" where
  "py_index xs i =
     (if 0 \<le> i \<and> i < int (length xs) then Inr (xs ! nat i)
      else if i < 0 \<and> - int (length xs) \<le> i then Inr (xs ! nat (int (length xs) + i))
      else Inl IndexError)"

text \<open>
  The embedded engine is a collaborator.  Of the calls the window makes on its web view,
  the model records \<open>setUrl\<close>, \<open>reload\<close> and the profile's \<open>setHttpUserAgent\<close>, in the order
  they are made; painting, visibility and zoom are left out, and so is printing.
\<close>

datatype engine_call = SetUrl string | Reload | SetHttpUserAgent string

text \<open>
  The state of a \<open>PrivacyBrowser\<close> window: the history and its index, the URL the engine
  reported last, the text of the address bar, the message of the status bar, whether the
  back and forward buttons are enabled, and the calls made on the web view.
\<close>

record PrivacyBrowser =
  history :: "string list"
  current_index :: int
  current_url :: string
  address_bar :: string
  status_bar :: string
  back_btn :: bool
  forward_btn :: bool
  web_view :: "engine_call list"

text \<open>\<open>__init__\<close> with \<open>setup_ui\<close> and \<open>create_toolbar\<close>.\<close>

definition PrivacyBrowser_init :: PrivacyBrowser where
  "PrivacyBrowser_init = \<lparr>
     history = [],
     current_index = - 1,
     current_url = '''',
     address_bar = ''https://www.bing.com'',
     status_bar = ''Ready - Clean browser'',
     back_btn = False,
     forward_btn = False,
     web_view =
       [SetHttpUserAgent ''Mozilla/5.0 (Macintosh; Intel Mac OS X 10_15_7) AppleWebKit/537.36 (KHTML, like Gecko) Chrome/120.0.0.0 Safari/537.36'',
        SetUrl ''https://www.bing.com'']\<rparr>"

definition update_navigation_buttons ::
  "'a PrivacyBrowser_scheme \<Rightarrow> 'a PrivacyBrowser_scheme" where
  "update_navigation_buttons self =
     (let self = (if current_index self > 0 then self\<lparr>back_btn := True\<rparr>
                  else self\<lparr>back_btn := False\<rparr>)
      in if current_index self < int (length (history self)) - 1
         then self\<lparr>forward_btn := True\<rparr>
         else self\<lparr>forward_btn := False\<rparr>)"

definition add_to_history ::
  "'a PrivacyBrowser_scheme \<Rightarrow> string \<Rightarrow> 'a PrivacyBrowser_scheme" where
  "add_to_history self url =
     (let self = (if current_index self < int (length (history self)) - 1
                  then self\<lparr>history := slice_to (history self) (current_index self + 1)\<rparr>
                  else self);
          self = self\<lparr>history := history self @ [url]\<rparr>;
          self = self\<lparr>current_index := int (length (history self)) - 1\<rparr>
      in update_navigation_buttons self)"

definition load_url :: "'a PrivacyBrowser_scheme \<Rightarrow> 'a PrivacyBrowser_scheme" where
  "load_url self =
     (let url = strip (address_bar self);
          url = (if \<not> (startswith url ''http://'' \<or> startswith url ''https://'')
                 then ''https://'' @ url else url);
          self = self\<lparr>web_view := web_view self @ [SetUrl url]\<rparr>
      in add_to_history self url)"

definition on_url_changed ::
  "'a PrivacyBrowser_scheme \<Rightarrow> string \<Rightarrow> 'a PrivacyBrowser_scheme" where
  "on_url_changed self url =
     self\<lparr>address_bar := url, current_url := url, status_bar := ''Loaded: '' @ url\<rparr>"

definition on_load_finished ::
  "'a PrivacyBrowser_scheme \<Rightarrow> bool \<Rightarrow> 'a PrivacyBrowser_scheme" where
  "on_load_finished self success =
     (if success then self\<lparr>status_bar := ''Page loaded successfully''\<rparr>
      else self\<lparr>status_bar := ''Failed to load page'',
                 web_view := web_view self @ [Reload]\<rparr>)"

definition go_back :: "'a PrivacyBrowser_scheme \<Rightarrow> py_error + 'a PrivacyBrowser_scheme" where
  "go_back self =
     (if current_index self > 0 then
        (let self = self\<lparr>current_index := current_index self - 1\<rparr>
         in bind_err (py_index (history self) (current_index self)) (\<lambda>url.
            Inr (update_navigation_buttons (self\<lparr>web_view := web_view self @ [SetUrl url]\<rparr>))))
      else Inr self)"

definition go_forward :: "'a PrivacyBrowser_scheme \<Rightarrow> py_error + 'a PrivacyBrowser_scheme" where
  "go_forward self =
     (if current_index self < int (length (history self)) - 1 then
        (let self = self\<lparr>current_index := current_index self + 1\<rparr>
         in bind_err (py_index (history self) (current_index self)) (\<lambda>url.
            Inr (update_navigation_buttons (self\<lparr>web_view := web_view self @ [SetUrl url]\<rparr>))))
      else Inr self)"

definition refresh_page :: "'a PrivacyBrowser_scheme \<Rightarrow> 'a PrivacyBrowser_scheme" where
  "refresh_page self =
     (if current_url self \<noteq> '''' then self\<lparr>web_view := web_view self @ [Reload]\<rparr> else self)"

text \<open>
  What can happen to a window: the user edits the address bar, presses Enter or Go, uses
  the back, forward and refresh buttons (or swipes), and the engine reports a changed URL
  or a finished load.
\<close>

datatype event =
  Edit string | LoadUrl | GoBack | GoForward | RefreshPage | UrlChanged string
  | LoadFinished bool

fun step :: "'a PrivacyBrowser_scheme \<Rightarrow> event \<Rightarrow> py_error + 'a PrivacyBrowser_scheme" where
  "step self (Edit t) = Inr (self\<lparr>address_bar := t\<rparr>)"
| "step self LoadUrl = Inr (load_url self)"
| "step self GoBack = go_back self"
| "step self GoForward = go_forward self"
| "step self RefreshPage = Inr (refresh_page self)"
| "step self (UrlChanged url) = Inr (on_url_changed self url)"
| "step self (LoadFinished success) = Inr (on_load_finished self success)"

fun run :: "'a PrivacyBrowser_scheme \<Rightarrow> event list \<Rightarrow> py_error + 'a PrivacyBrowser_scheme" where
  "run self [] = Inr self"
| "run self (e # es) = (case step self e of Inl err \<Rightarrow> Inl err | Inr self' \<Rightarrow> run self' es)"

section \<open>browser\_broken.py\<close>

text \<open>
  \<open>s.lower()\<close> for code points below 256: the letters A to Z and the accented capitals
  (all of \<open>0xC0\<close> to \<open>0xDE\<close> but the multiplication sign) move up by 32.
\<close>

definition lower_char :: "char \<Rightarrow> char" where
  "lower_char c =
     (let n = (of_char c :: nat)
      in if (65 \<le> n \<and> n \<le> 90) \<or> (192 \<le> n \<and> n \<le> 222 \<and> n \<noteq> 215)
         then char_of (n + 32) else c)"

definition lower :: "string \<Rightarrow> string" where
  "lower s = map lower_char s"

text \<open>
  The window of \<open>browser_broken.py\<close> has the state of the window of \<open>browser.py\<close> and the
  privacy components.  The attributes \<open>fingerprint_applied\<close>, \<open>current_fingerprint\<close>,
  \<open>google_fixes_applied\<close> and \<open>google_js_applied\<close> do not exist until they are first
  assigned: \<open>None\<close> is the missing attribute, and \<open>hasattr\<close> asks for \<open>Some\<close>.
  \<open>random_state\<close> is the state of the global \<open>random\<close> generator.
  \<open>go_back\<close>, \<open>go_forward\<close>, \<open>refresh_page\<close>, \<open>on_url_changed\<close> and
  \<open>update_navigation_buttons\<close> are those of \<open>browser.py\<close>.
\<close>

record PrivacyBrowser_broken = PrivacyBrowser +
  privacy :: EnhancedPrivacyProtector
  fingerprint_protector :: FingerPrintProtector
  cookie_manager :: cookie_manager
  fingerprint_applied :: "bool option"
  current_fingerprint :: "fingerprint option"
  google_fixes_applied :: "bool option"
  google_js_applied :: "bool option"
  random_state :: rng

definition google_compatible_ua :: string where
  "google_compatible_ua = ''Mozilla/5.0 (Macintosh; Intel Mac OS X 10_15_7) AppleWebKit/537.36 (KHTML, like Gecko) Chrome/131.0.0.0 Safari/537.36''"

definition apply_fingerprint_protection ::
  "PrivacyBrowser_broken \<Rightarrow> py_error + PrivacyBrowser_broken" where
  "apply_fingerprint_protection self =
     (if fingerprint_applied self \<noteq> None then Inr self
      else
        bind_err (generate_random_fingerprint (fingerprint_protector self) (random_state self))
          (\<lambda>(fingerprint, g).
        Inr (self\<lparr>random_state := g,
                  web_view := web_view self @ [SetHttpUserAgent google_compatible_ua],
                  fingerprint_applied := Some True,
                  current_fingerprint := Some fingerprint\<rparr>)))"

text \<open>After setting \<open>google_js_applied\<close> the method returns; the script below it is never run.\<close>

definition apply_google_compatibility_fixes ::
  "PrivacyBrowser_broken \<Rightarrow> PrivacyBrowser_broken" where
  "apply_google_compatibility_fixes self =
     (if google_js_applied self \<noteq> None then self
      else self\<lparr>google_js_applied := Some True\<rparr>)"

definition add_to_history_broken ::
  "PrivacyBrowser_broken \<Rightarrow> string \<Rightarrow> PrivacyBrowser_broken" where
  "add_to_history_broken self url =
     (let self = self\<lparr>history := slice_to (history self) (current_index self + 1)\<rparr>;
          self = self\<lparr>history := history self @ [url]\<rparr>;
          self = self\<lparr>current_index := int (length (history self)) - 1\<rparr>
      in update_navigation_buttons self)"

definition load_url_broken :: "PrivacyBrowser_broken \<Rightarrow> PrivacyBrowser_broken" where
  "load_url_broken self =
     (let url = strip (address_bar self);
          url = (if \<not> (startswith url ''http://'' \<or> startswith url ''https://'')
                 then ''https://'' @ url else url);
          self = self\<lparr>status_bar := ''Loading '' @ url @ ''...''\<rparr>;
          self = self\<lparr>web_view := web_view self @ [SetUrl url]\<rparr>
      in add_to_history_broken self url)"

definition on_load_finished_broken ::
  "PrivacyBrowser_broken \<Rightarrow> bool \<Rightarrow> py_error + PrivacyBrowser_broken" where
  "on_load_finished_broken self success =
     (if success then
        (let self = self\<lparr>status_bar := ''Page loaded successfully - Privacy protection active''\<rparr>
         in bind_err (if fingerprint_applied self = None
                      then apply_fingerprint_protection self else Inr self) (\<lambda>self.
            Inr (if py_in ''google.com'' (lower (current_url self))
                    \<and> google_fixes_applied self = None
                 then (apply_google_compatibility_fixes self)\<lparr>google_fixes_applied := Some True\<rparr>
                 else self)))
      else Inr (self\<lparr>status_bar := ''Failed to load page'',
                       web_view := web_view self @ [Reload]\<rparr>))"

text \<open>
  \<open>__init__\<close>: the window as \<open>setup_ui\<close> has it when it calls
  \<open>apply_fingerprint_protection\<close>, and the window when \<open>__init__\<close> returns.  The generator's
  state at that moment is the parameter.
\<close>

definition PrivacyBrowser_broken_new :: "rng \<Rightarrow> PrivacyBrowser_broken" where
  "PrivacyBrowser_broken_new g = \<lparr>
     history = [],
     current_index = - 1,
     current_url = '''',
     address_bar = ''https://duckduckgo.com'',
     status_bar = '''',
     back_btn = False,
     forward_btn = False,
     web_view = [SetUrl ''https://duckduckgo.com''],
     privacy = EnhancedPrivacyProtector_init,
     fingerprint_protector = FingerPrintProtector_init,
     cookie_manager = cookie_manager_init,
     fingerprint_applied = None,
     current_fingerprint = None,
     google_fixes_applied = None,
     google_js_applied = None,
     random_state = g\<rparr>"

definition PrivacyBrowser_broken_init :: "rng \<Rightarrow> py_error + PrivacyBrowser_broken" where
  "PrivacyBrowser_broken_init g =
     bind_err (apply_fingerprint_protection (PrivacyBrowser_broken_new g)) (\<lambda>self.
     Inr (self\<lparr>status_bar := ''Ready - Enter a URL and press Go or Enter''\<rparr>))"

text \<open>
  What can happen to this window: the events of \<open>browser.py\<close>, and a call of one of the two
  one-time operations.
\<close>

datatype broken_event =
  Ui event | ApplyFingerprintProtection | ApplyGoogleCompatibilityFixes

fun step_broken :: "PrivacyBrowser_broken \<Rightarrow> broken_event \<Rightarrow> py_error + PrivacyBrowser_broken" where
  "step_broken self (Ui LoadUrl) = Inr (load_url_broken self)"
| "step_broken self (Ui (LoadFinished success)) = on_load_finished_broken self success"
| "step_broken self (Ui e) = step self e"
| "step_broken self ApplyFingerprintProtection = apply_fingerprint_protection self"
| "step_broken self ApplyGoogleCompatibilityFixes = Inr (apply_google_compatibility_fixes self)"

fun run_broken ::
  "PrivacyBrowser_broken \<Rightarrow> broken_event list \<Rightarrow> py_error + PrivacyBrowser_broken" where
  "run_broken self [] = Inr self"
| "run_broken self (e # es) =
     (case step_broken self e of Inl err \<Rightarrow> Inl err | Inr self' \<Rightarrow> run_broken self' es)"

subsection \<open>The request interceptor\<close>

text \<open>
  Of a \<open>QWebEngineUrlRequestInfo\<close>: the URL requested, the headers set on the request, and
  whether \<open>block(True)\<close> was called on it.
\<close>

record request_info =
  requestUrl :: string
  http_headers :: "string \<rightharpoonup> string"
  blocked :: bool

definition setHttpHeader :: "request_info \<Rightarrow> string \<Rightarrow> string \<Rightarrow> request_info" where
  "setHttpHeader info name v = info\<lparr>http_headers := (http_headers info)(name \<mapsto> v)\<rparr>"

definition google_essential_domains :: "string list" where
  "google_essential_domains =
     [''google.com'', ''googleapis.com'', ''gstatic.com'', ''googleusercontent.com'',
      ''google-analytics.com'', ''googletagmanager.com'', ''doubleclick.net'']"

definition is_google_essential :: "string \<Rightarrow> bool" where
  "is_google_essential url = py_any (map (\<lambda>domain. py_in domain url) google_essential_domains)"

text \<open>
  \<open>interceptRequest\<close> sets eleven headers and then tests the URL against the essential
  domains.  An essential request returns at once; for any other request the method ends
  there too, no blocking being written after the test.
\<close>

definition interceptRequest :: "request_info \<Rightarrow> request_info" where
  "interceptRequest info0 =
     (let url = requestUrl info0;
          info = setHttpHeader info0 ''Accept''
            ''text/html,application/xhtml+xml,application/xml;q=0.9,image/avif,image/webp,image/apng,*/*;q=0.8,application/signed-exchange;v=b3;q=0.7'';
          info = setHttpHeader info ''Accept-Language'' ''en-US,en;q=0.9'';
          info = setHttpHeader info ''Accept-Encoding'' ''gzip, deflate, br'';
          info = setHttpHeader info ''DNT'' ''1'';
          info = setHttpHeader info ''Connection'' ''keep-alive'';
          info = setHttpHeader info ''Upgrade-Insecure-Requests'' ''1'';
          info = setHttpHeader info ''Sec-Fetch-Dest'' ''document'';
          info = setHttpHeader info ''Sec-Fetch-Mode'' ''navigate'';
          info = setHttpHeader info ''Sec-Fetch-Site'' ''none'';
          info = setHttpHeader info ''Sec-Fetch-User'' ''?1'';
          info = setHttpHeader info ''Cache-Control'' ''max-age=0''
      in if is_google_essential url then info else info)"

section \<open>Notions used in the properties\<close>

text \<open>A URL with a scheme, as \<open>load_url\<close> tests it.\<close>

definition has_scheme :: "string \<Rightarrow> bool" where
  "has_scheme url = (startswith url ''http://'' \<or> startswith url ''https://'')"

text \<open>
  A well-formed history: the index is \<open>-1\<close> or a position of the list, and every entry
  has a scheme.
\<close>

definition history_inv :: "'a PrivacyBrowser_scheme \<Rightarrow> bool" where
  "history_inv self =
     (- 1 \<le> current_index self \<and> current_index self < int (length (history self))
      \<and> list_all has_scheme (history self))"

text \<open>The number of \<open>reload()\<close> calls among the calls made on the web view.\<close>

definition reloads :: "engine_call list \<Rightarrow> nat" where
  "reloads calls = length (filter (\<lambda>c. c = Reload) calls)"

section \<open>Properties\<close>

lemma py_in_sublist: "py_in sub s \<longleftrightarrow> (\<exists>pre suf. s = pre @ sub @ suf)"
proof (induction s)
  case Nil
  then show ?case by auto
next
  case (Cons c s)
  show ?case
  proof
    assume "py_in sub (c # s)"
    then consider "prefix sub (c # s)" | "py_in sub s" by auto
    then show "\<exists>pre suf. c # s = pre @ sub @ suf"
    proof cases
      case 1
      then obtain suf where "c # s = sub @ suf" by (auto simp: prefix_def)
      then have "c # s = [] @ sub @ suf" by simp
      then show ?thesis by blast
    next
      case 2
      with Cons.IH obtain pre suf where "s = pre @ sub @ suf" by blast
      then have "c # s = (c # pre) @ sub @ suf" by simp
      then show ?thesis by blast
    qed
  next
    assume "\<exists>pre suf. c # s = pre @ sub @ suf"
    then obtain pre suf where eq: "c # s = pre @ sub @ suf" by blast
    show "py_in sub (c # s)"
    proof (cases pre)
      case Nil
      with eq have "prefix sub (c # s)" by (simp add: prefix_def)
      then show ?thesis by simp
    next
      case (Cons p pre')
      with eq have "s = pre' @ sub @ suf" by simp
      with Cons.IH have "py_in sub s" by blast
      then show ?thesis by simp
    qed
  qed
qed

text \<open>
  C5.  \<open>should_accept_cookie\<close> rejects every cookie under \<open>block_all\<close>, accepts every cookie
  under \<open>allow_all\<close>, and under \<open>block_third_party\<close> accepts exactly when the request
  domain occurs in the cookie's domain as a substring.  A cookie of \<open>ads.example.com\<close> is
  rejected for the request domain \<open>site.com\<close> and accepted for \<open>example.com\<close>.
\<close>

theorem should_accept_cookie_policies:
  "should_accept_cookie \<lparr>cookie_policy = ''block_all''\<rparr> c d = False
   \<and> should_accept_cookie \<lparr>cookie_policy = ''allow_all''\<rparr> c d = True
   \<and> should_accept_cookie \<lparr>cookie_policy = ''block_third_party''\<rparr> c d
       = (\<exists>pre suf. domain c = pre @ d @ suf)
   \<and> should_accept_cookie \<lparr>cookie_policy = ''block_third_party''\<rparr>
       \<lparr>domain = ''ads.example.com''\<rparr> ''site.com'' = False
   \<and> should_accept_cookie \<lparr>cookie_policy = ''block_third_party''\<rparr>
       \<lparr>domain = ''ads.example.com''\<rparr> ''example.com'' = True"
  by (simp add: should_accept_cookie_def py_in_sublist [symmetric])

text \<open>
  C10.  Any policy string other than \<open>block_all\<close> and \<open>block_third_party\<close> accepts every
  cookie for every domain: an unrecognised policy behaves as \<open>allow_all\<close> does.
\<close>

theorem should_accept_cookie_fails_open:
  assumes "cookie_policy self \<noteq> ''block_all''"
    and "cookie_policy self \<noteq> ''block_third_party''"
  shows "should_accept_cookie self c d = True
         \<and> should_accept_cookie self c d
             = should_accept_cookie \<lparr>cookie_policy = ''allow_all''\<rparr> c d"
  using assms by (simp add: should_accept_cookie_def)

theorem should_accept_cookie_fails_open_witness:
  "should_accept_cookie \<lparr>cookie_policy = ''block_third_partty''\<rparr>
     \<lparr>domain = ''ads.example.com''\<rparr> ''site.com'' = True"
  using should_accept_cookie_fails_open
    [of "\<lparr>cookie_policy = ''block_third_partty''\<rparr>" "\<lparr>domain = ''ads.example.com''\<rparr>" "''site.com''"]
  by simp

subsection \<open>Drawing a fingerprint\<close>

text \<open>
  With the pools of \<open>__init__\<close> no draw can fail: \<open>generate_random_fingerprint\<close> returns a
  fingerprint made of fifteen consecutive draws, of which the ninth and tenth are
  overwritten by the last two.
\<close>

lemma choice_Cons:
  "choice (x # xs) g = Inr ((x # xs) ! (fst g (snd g) mod length (x # xs)), (fst g, snd g + 1))"
  by (simp add: choice_def)

lemma bind_err_Inr: "bind_err (Inr a) h = h a"
  by (simp add: bind_err_def)

lemma bind_err_Inl: "bind_err (Inl e) h = Inl e"
  by (simp add: bind_err_def)

lemma generate_random_fingerprint_init:
  "generate_random_fingerprint FingerPrintProtector_init (f, k) =
     Inr (\<lparr>user_agent = user_agents FingerPrintProtector_init ! (f k mod 4),
          screen_resolution = screen_resolution_pool FingerPrintProtector_init ! (f (k + 1) mod 7),
          timezone = timezone_pool FingerPrintProtector_init ! (f (k + 2) mod 12),
          language = language_pool FingerPrintProtector_init ! (f (k + 3) mod 6),
          plugins = plugins_pool FingerPrintProtector_init ! (f (k + 4) mod 5),
          platform = [''MacIntel'', ''Win32'', ''Linux x86_64'', ''iPhone'', ''iPad''] ! (f (k + 5) mod 5),
          color_depth = [''8'', ''16'', ''24'', ''32''] ! (f (k + 6) mod 4),
          pixel_ratio = [1, 2, 3 / 2] ! (f (k + 7) mod 3),
          webgl_vendor = [''Google'', ''Mozilla'', ''Apple'', ''Microsoft''] ! (f (k + 13) mod 4),
          webgl_renderer = [''Intel'', ''NVIDIA'', ''AMD'', ''Apple''] ! (f (k + 14) mod 4),
          webgl_version = [''1'', ''2'', ''3''] ! (f (k + 10) mod 3),
          webgl_extensions =
            [''WEBGL_depth_texture'', ''WEBGL_draw_buffers'', ''WEBGL_lose_context''] ! (f (k + 11) mod 3),
          webgl_shading_language_version =
            [''1.0'', ''1.1'', ''1.2'', ''1.3'', ''1.4'', ''1.5''] ! (f (k + 12) mod 6)\<rparr>,
          (f, k + 15))"
  unfolding generate_random_fingerprint_def FingerPrintProtector_init_def
  by (simp only: FingerPrintProtector.simps choice_Cons bind_err_Inr prod.case fst_conv snd_conv)
     (simp add: add.assoc del: One_nat_def add_2_eq_Suc' add_2_eq_Suc)

subsection \<open>The history\<close>

lemma history_update_navigation_buttons [simp]:
  "history (update_navigation_buttons self) = history self"
  "current_index (update_navigation_buttons self) = current_index self"
  "web_view (update_navigation_buttons self) = web_view self"
  "status_bar (update_navigation_buttons self) = status_bar self"
  by (simp_all add: update_navigation_buttons_def Let_def)

lemma slice_to_nonneg: "0 \<le> k \<Longrightarrow> slice_to xs k = take (nat k) xs"
  by (simp add: slice_to_def)

lemma add_to_history_history:
  assumes "- 1 \<le> current_index self" and "current_index self < int (length (history self))"
  shows "history (add_to_history self url) = take (nat (current_index self + 1)) (history self) @ [url]"
    and "current_index (add_to_history self url) = current_index self + 1"
  using assms by (auto simp: add_to_history_def Let_def slice_to_nonneg min_def)

lemma add_to_history_broken_history:
  assumes "- 1 \<le> current_index self" and "current_index self < int (length (history self))"
  shows "history (add_to_history_broken self url) = take (nat (current_index self + 1)) (history self) @ [url]"
    and "current_index (add_to_history_broken self url) = current_index self + 1"
  using assms by (auto simp: add_to_history_broken_def Let_def slice_to_nonneg min_def)

text \<open>
  C2.  On a history of length \<open>n\<close> at index \<open>i\<close> with \<open>-1 \<le> i < n\<close>, \<open>add_to_history\<close>
  (in \<open>browser.py\<close> and in \<open>browser_broken.py\<close>) keeps the entries up to position \<open>i\<close>,
  drops the later ones, appends the new URL and sets the index to the new length minus
  one.  It is a total function: it cannot fail.  The history \<open>[a, b, c]\<close> at index 0
  becomes \<open>[a, d]\<close> at index 1.
\<close>

theorem add_to_history_truncates:
  assumes "- 1 \<le> current_index self" and "current_index self < int (length (history self))"
    and "- 1 \<le> current_index b" and "current_index b < int (length (history b))"
  shows "history (add_to_history self url)
           = take (nat (current_index self + 1)) (history self) @ [url]
       \<and> current_index (add_to_history self url)
           = int (length (history (add_to_history self url))) - 1
       \<and> current_index (add_to_history self url) = current_index self + 1
       \<and> history (add_to_history_broken b url)
           = take (nat (current_index b + 1)) (history b) @ [url]
       \<and> current_index (add_to_history_broken b url)
           = int (length (history (add_to_history_broken b url))) - 1
       \<and> current_index (add_to_history_broken b url) = current_index b + 1"
proof -
  note a = add_to_history_history [OF assms(1,2), of url]
  note c = add_to_history_broken_history [OF assms(3,4), of url]
  have la: "int (length (history (add_to_history self url))) - 1 = current_index self + 1"
    using assms(1,2) by (auto simp: a(1) min_def)
  have lc: "int (length (history (add_to_history_broken b url))) - 1 = current_index b + 1"
    using assms(3,4) by (auto simp: c(1) min_def)
  show ?thesis using a c la lc by simp
qed

theorem add_to_history_truncates_witness:
  "history (add_to_history
      (PrivacyBrowser_init\<lparr>history := [''https://a'', ''https://b'', ''https://c''],
         current_index := 0\<rparr>) ''https://d'') = [''https://a'', ''https://d'']
   \<and> current_index (add_to_history
      (PrivacyBrowser_init\<lparr>history := [''https://a'', ''https://b'', ''https://c''],
         current_index := 0\<rparr>) ''https://d'') = 1
   \<and> history (add_to_history_broken
      ((PrivacyBrowser_broken_new (id, 0))\<lparr>history := [''https://a'', ''https://b'', ''https://c''],
         current_index := 0\<rparr>) ''https://d'') = [''https://a'', ''https://d'']
   \<and> current_index (add_to_history_broken
      ((PrivacyBrowser_broken_new (id, 0))\<lparr>history := [''https://a'', ''https://b'', ''https://c''],
         current_index := 0\<rparr>) ''https://d'') = 1"
  using add_to_history_truncates
    [of "PrivacyBrowser_init\<lparr>history := [''https://a'', ''https://b'', ''https://c''], current_index := 0\<rparr>"
        "(PrivacyBrowser_broken_new (id, 0))\<lparr>history := [''https://a'', ''https://b'', ''https://c''], current_index := 0\<rparr>"
        "''https://d''"]
  by (simp add: PrivacyBrowser_init_def PrivacyBrowser_broken_new_def)

text \<open>
  Every handler keeps a well-formed history well-formed, and \<open>go_back\<close> and \<open>go_forward\<close>
  do not raise on one.
\<close>

lemma has_scheme_url: "has_scheme (if has_scheme u then u else ''https://'' @ u)"
  by (simp add: has_scheme_def startswith_def)

lemma load_url_eq:
  "load_url self =
     add_to_history (self\<lparr>web_view := web_view self @
         [SetUrl (if has_scheme (strip (address_bar self)) then strip (address_bar self)
                  else ''https://'' @ strip (address_bar self))]\<rparr>)
       (if has_scheme (strip (address_bar self)) then strip (address_bar self)
        else ''https://'' @ strip (address_bar self))"
  by (simp add: load_url_def Let_def has_scheme_def)

lemma load_url_broken_eq:
  "load_url_broken self =
     add_to_history_broken (self\<lparr>
         status_bar := ''Loading '' @ (if has_scheme (strip (address_bar self)) then strip (address_bar self)
                  else ''https://'' @ strip (address_bar self)) @ ''...'',
         web_view := web_view self @
         [SetUrl (if has_scheme (strip (address_bar self)) then strip (address_bar self)
                  else ''https://'' @ strip (address_bar self))]\<rparr>)
       (if has_scheme (strip (address_bar self)) then strip (address_bar self)
        else ''https://'' @ strip (address_bar self))"
  by (simp add: load_url_broken_def Let_def has_scheme_def)

lemma add_to_history_last:
  "\<exists>pre. history (add_to_history self url) = pre @ [url]"
  "web_view (add_to_history self url) = web_view self"
  by (simp_all add: add_to_history_def Let_def)

lemma add_to_history_broken_last:
  "\<exists>pre. history (add_to_history_broken self url) = pre @ [url]"
  "web_view (add_to_history_broken self url) = web_view self"
  by (simp_all add: add_to_history_broken_def Let_def)

lemma list_all_slice_to: "list_all P xs \<Longrightarrow> list_all P (slice_to xs k)"
  by (auto simp: slice_to_def list_all_iff dest: in_set_takeD)

lemma add_to_history_inv:
  assumes "history_inv self" and "has_scheme url"
  shows "history_inv (add_to_history self url)"
proof -
  from assms(1) have i: "- 1 \<le> current_index self" "current_index self < int (length (history self))"
    and h: "list_all has_scheme (history self)"
    by (simp_all add: history_inv_def)
  note a = add_to_history_history [OF i, of url]
  have "list_all has_scheme (history (add_to_history self url))"
    using h assms(2) by (auto simp: a(1) list_all_iff dest: in_set_takeD)
  moreover have "current_index (add_to_history self url) < int (length (history (add_to_history self url)))"
    using i by (auto simp: a min_def)
  moreover have "- 1 \<le> current_index (add_to_history self url)"
    using i by (simp add: a)
  ultimately show ?thesis by (simp add: history_inv_def)
qed

lemma add_to_history_broken_inv:
  assumes "history_inv self" and "has_scheme url"
  shows "history_inv (add_to_history_broken self url)"
proof -
  from assms(1) have i: "- 1 \<le> current_index self" "current_index self < int (length (history self))"
    and h: "list_all has_scheme (history self)"
    by (simp_all add: history_inv_def)
  note a = add_to_history_broken_history [OF i, of url]
  have "list_all has_scheme (history (add_to_history_broken self url))"
    using h assms(2) by (auto simp: a(1) list_all_iff dest: in_set_takeD)
  moreover have "current_index (add_to_history_broken self url)
      < int (length (history (add_to_history_broken self url)))"
    using i by (auto simp: a min_def)
  moreover have "- 1 \<le> current_index (add_to_history_broken self url)"
    using i by (simp add: a)
  ultimately show ?thesis by (simp add: history_inv_def)
qed

lemma history_inv_frame:
  "history s' = history s \<Longrightarrow> current_index s' = current_index s \<Longrightarrow>
   history_inv s' = history_inv s"
  by (simp add: history_inv_def)

lemma load_url_inv: "history_inv self \<Longrightarrow> history_inv (load_url self)"
  unfolding load_url_eq
proof (rule add_to_history_inv)
  assume "history_inv self"
  then show "history_inv (self\<lparr>web_view := web_view self @
         [SetUrl (if has_scheme (strip (address_bar self)) then strip (address_bar self)
                  else ''https://'' @ strip (address_bar self))]\<rparr>)"
    by (simp add: history_inv_def)
qed (rule has_scheme_url)

lemma load_url_broken_inv: "history_inv self \<Longrightarrow> history_inv (load_url_broken self)"
  unfolding load_url_broken_eq
proof (rule add_to_history_broken_inv)
  assume "history_inv self"
  then show "history_inv (self\<lparr>
         status_bar := ''Loading '' @ (if has_scheme (strip (address_bar self)) then strip (address_bar self)
                  else ''https://'' @ strip (address_bar self)) @ ''...'',
         web_view := web_view self @
         [SetUrl (if has_scheme (strip (address_bar self)) then strip (address_bar self)
                  else ''https://'' @ strip (address_bar self))]\<rparr>)"
    by (simp add: history_inv_def)
qed (rule has_scheme_url)

lemma go_back_inv:
  assumes "history_inv self"
  shows "\<exists>s. go_back self = Inr s \<and> history_inv s"
proof (cases "current_index self > 0")
  case False
  then show ?thesis using assms by (simp add: go_back_def)
next
  case True
  with assms have "py_index (history self) (current_index self - 1)
      = Inr (history self ! nat (current_index self - 1))"
    by (simp add: py_index_def history_inv_def Let_def)
  with True assms show ?thesis
    by (simp add: go_back_def Let_def bind_err_Inr history_inv_def)
qed

lemma go_forward_inv:
  assumes "history_inv self"
  shows "\<exists>s. go_forward self = Inr s \<and> history_inv s"
proof (cases "current_index self < int (length (history self)) - 1")
  case False
  then show ?thesis using assms by (simp add: go_forward_def)
next
  case True
  with assms have "py_index (history self) (current_index self + 1)
      = Inr (history self ! nat (current_index self + 1))"
    by (simp add: py_index_def history_inv_def Let_def)
  with True assms show ?thesis
    by (simp add: go_forward_def Let_def bind_err_Inr history_inv_def)
qed

lemma step_inv:
  assumes "history_inv self"
  shows "\<exists>s. step self e = Inr s \<and> history_inv s"
proof (cases e)
  case GoBack
  then show ?thesis using go_back_inv [OF assms] by simp
next
  case GoForward
  then show ?thesis using go_forward_inv [OF assms] by simp
next
  case LoadUrl
  then show ?thesis using load_url_inv [OF assms] by simp
qed (use assms in \<open>simp_all add: history_inv_def refresh_page_def on_url_changed_def
       on_load_finished_def\<close>)

lemma run_inv:
  "history_inv self \<Longrightarrow> \<exists>s. run self evs = Inr s \<and> history_inv s"
proof (induction evs arbitrary: self)
  case Nil
  then show ?case by simp
next
  case (Cons e evs)
  from step_inv [OF Cons.prems, of e] obtain s1 where s1: "step self e = Inr s1" "history_inv s1"
    by blast
  from Cons.IH [OF s1(2)] s1(1) show ?case by simp
qed

lemma PrivacyBrowser_init_inv: "history_inv PrivacyBrowser_init"
  by (simp add: history_inv_def PrivacyBrowser_init_def)

subsection \<open>The one-time fingerprint\<close>

text \<open>
  Once \<open>fingerprint_applied\<close> exists, no handler of the window changes it, the stored
  fingerprint or the generator.
\<close>

lemma apply_fingerprint_protection_again:
  "fingerprint_applied self \<noteq> None \<Longrightarrow> apply_fingerprint_protection self = Inr self"
  by (simp add: apply_fingerprint_protection_def)

lemma apply_fingerprint_protection_first:
  assumes "fingerprint_applied self = None" and "apply_fingerprint_protection self = Inr s1"
  shows "\<exists>fp g. generate_random_fingerprint (fingerprint_protector self) (random_state self)
                  = Inr (fp, g)
          \<and> s1 = self\<lparr>random_state := g,
                       web_view := web_view self @ [SetHttpUserAgent google_compatible_ua],
                       fingerprint_applied := Some True,
                       current_fingerprint := Some fp\<rparr>"
  using assms
  by (cases "generate_random_fingerprint (fingerprint_protector self) (random_state self)")
     (auto simp: apply_fingerprint_protection_def bind_err_def)

lemma apply_fingerprint_protection_sets:
  assumes "apply_fingerprint_protection self = Inr s1"
  shows "fingerprint_applied s1 \<noteq> None \<and> history s1 = history self
         \<and> current_index s1 = current_index self"
proof (cases "fingerprint_applied self")
  case None
  from apply_fingerprint_protection_first [OF None assms] show ?thesis by auto
next
  case (Some b)
  with assms show ?thesis by (simp add: apply_fingerprint_protection_def)
qed

lemma on_load_finished_broken_applied:
  assumes "fingerprint_applied self \<noteq> None"
  shows "\<exists>s. on_load_finished_broken self success = Inr s
           \<and> fingerprint_applied s = fingerprint_applied self
           \<and> current_fingerprint s = current_fingerprint self
           \<and> random_state s = random_state self
           \<and> history s = history self \<and> current_index s = current_index self"
proof -
  from assms obtain b where "fingerprint_applied self = Some b" by auto
  then show ?thesis
    by (simp add: on_load_finished_broken_def Let_def bind_err_Inr
          apply_google_compatibility_fixes_def)
qed

lemma fingerprint_update_navigation_buttons [simp]:
  "fingerprint_applied (update_navigation_buttons self) = fingerprint_applied self"
  "current_fingerprint (update_navigation_buttons self) = current_fingerprint self"
  "random_state (update_navigation_buttons self) = random_state self"
  by (simp_all add: update_navigation_buttons_def Let_def)

lemma load_url_broken_fingerprint:
  "fingerprint_applied (load_url_broken self) = fingerprint_applied self"
  "current_fingerprint (load_url_broken self) = current_fingerprint self"
  "random_state (load_url_broken self) = random_state self"
  by (simp_all add: load_url_broken_def add_to_history_broken_def Let_def)

lemma step_fingerprint:
  assumes "step self e = Inr s"
  shows "fingerprint_applied s = fingerprint_applied self
       \<and> current_fingerprint s = current_fingerprint self
       \<and> random_state s = random_state self"
proof (cases e)
  case GoBack
  with assms show ?thesis
    by (auto simp: go_back_def Let_def bind_err_def split: if_splits sum.splits)
next
  case GoForward
  with assms show ?thesis
    by (auto simp: go_forward_def Let_def bind_err_def split: if_splits sum.splits)
next
  case LoadUrl
  with assms show ?thesis
    by (auto simp: load_url_def add_to_history_def Let_def)
qed (use assms in \<open>auto simp: refresh_page_def on_url_changed_def on_load_finished_def\<close>)

lemma step_broken_fingerprint:
  assumes "fingerprint_applied self \<noteq> None" and "step_broken self e = Inr s"
  shows "fingerprint_applied s = fingerprint_applied self
       \<and> current_fingerprint s = current_fingerprint self
       \<and> random_state s = random_state self"
proof (cases e)
  case (Ui u)
  show ?thesis
  proof (cases u)
    case LoadUrl
    with Ui assms show ?thesis by (auto simp: load_url_broken_fingerprint)
  next
    case (LoadFinished success)
    with Ui assms on_load_finished_broken_applied [OF assms(1), of success]
    show ?thesis by auto
  qed (use Ui assms step_fingerprint [of self u s] in simp_all)
next
  case ApplyFingerprintProtection
  with assms show ?thesis by (simp add: apply_fingerprint_protection_again)
next
  case ApplyGoogleCompatibilityFixes
  with assms show ?thesis by (auto simp: apply_google_compatibility_fixes_def)
qed

lemma run_broken_fingerprint:
  "fingerprint_applied self \<noteq> None \<Longrightarrow> run_broken self evs = Inr s \<Longrightarrow>
   fingerprint_applied s = fingerprint_applied self
   \<and> current_fingerprint s = current_fingerprint self
   \<and> random_state s = random_state self"
proof (induction evs arbitrary: self)
  case Nil
  then show ?case by simp
next
  case (Cons e evs)
  from Cons.prems(2) obtain s1 where s1: "step_broken self e = Inr s1" "run_broken s1 evs = Inr s"
    by (auto split: sum.splits)
  from step_broken_fingerprint [OF Cons.prems(1) s1(1)] Cons.IH [of s1, OF _ s1(2)] Cons.prems(1)
  show ?case by simp
qed

lemma step_broken_inv:
  assumes "history_inv self" and "fingerprint_applied self \<noteq> None"
  shows "\<exists>s. step_broken self e = Inr s \<and> history_inv s"
proof (cases e)
  case (Ui u)
  show ?thesis
  proof (cases u)
    case LoadUrl
    with Ui load_url_broken_inv [OF assms(1)] show ?thesis by simp
  next
    case (LoadFinished success)
    from on_load_finished_broken_applied [OF assms(2), of success] obtain s where
      "on_load_finished_broken self success = Inr s" "history s = history self"
      "current_index s = current_index self" by blast
    with Ui LoadFinished assms(1) show ?thesis by (simp add: history_inv_def)
  qed (use Ui step_inv [OF assms(1), of u] in simp_all)
next
  case ApplyFingerprintProtection
  with assms show ?thesis by (simp add: apply_fingerprint_protection_again)
next
  case ApplyGoogleCompatibilityFixes
  with assms show ?thesis by (simp add: apply_google_compatibility_fixes_def history_inv_def)
qed

lemma run_broken_inv:
  "history_inv self \<Longrightarrow> fingerprint_applied self \<noteq> None \<Longrightarrow>
   \<exists>s. run_broken self evs = Inr s \<and> history_inv s"
proof (induction evs arbitrary: self)
  case Nil
  then show ?case by simp
next
  case (Cons e evs)
  from step_broken_inv [OF Cons.prems, of e] obtain s1 where
    s1: "step_broken self e = Inr s1" "history_inv s1" by blast
  from step_broken_fingerprint [OF Cons.prems(2) s1(1)] Cons.prems(2)
  have "fingerprint_applied s1 \<noteq> None" by simp
  from Cons.IH [OF s1(2) this] s1(1) show ?case by simp
qed

lemma apply_fingerprint_protection_new:
  "apply_fingerprint_protection (PrivacyBrowser_broken_new (f, k)) =
     Inr ((PrivacyBrowser_broken_new (f, k))\<lparr>
        random_state := (f, k + 15),
        web_view := [SetUrl ''https://duckduckgo.com'', SetHttpUserAgent google_compatible_ua],
        fingerprint_applied := Some True,
        current_fingerprint :=
          Some (fst (projr (generate_random_fingerprint FingerPrintProtector_init (f, k))))\<rparr>)"
  by (simp add: apply_fingerprint_protection_def PrivacyBrowser_broken_new_def
        generate_random_fingerprint_init bind_err_Inr)

text \<open>
  C1.  Applying the fingerprint protection is idempotent within a session.  When a call of
  \<open>apply_fingerprint_protection\<close> returns, the flag \<open>fingerprint_applied\<close> is set; if it was
  not set before, the call has stored the fingerprint it drew.  A second call returns
  the same window unchanged, and after any sequence of events of the window (loads,
  navigation, finished loads, further calls of the operation) the flag and the stored
  fingerprint are still the same and a further call changes nothing.  No handler removes
  the flag: only a new window starts without it.  From a well-formed history every such
  sequence of events runs to its end.
\<close>

theorem apply_fingerprint_protection_idempotent:
  assumes "apply_fingerprint_protection self = Inr s1"
  shows "fingerprint_applied s1 \<noteq> None
       \<and> (fingerprint_applied self = None \<longrightarrow>
            fingerprint_applied s1 = Some True
            \<and> (\<exists>fp g. generate_random_fingerprint (fingerprint_protector self) (random_state self)
                          = Inr (fp, g)
                        \<and> current_fingerprint s1 = Some fp))
       \<and> apply_fingerprint_protection s1 = Inr s1
       \<and> (\<forall>evs s2. run_broken s1 evs = Inr s2 \<longrightarrow>
             fingerprint_applied s2 = fingerprint_applied s1
             \<and> current_fingerprint s2 = current_fingerprint s1
             \<and> apply_fingerprint_protection s2 = Inr s2)
       \<and> (\<forall>evs. history_inv s1 \<longrightarrow> (\<exists>s2. run_broken s1 evs = Inr s2))"
proof -
  from apply_fingerprint_protection_sets [OF assms]
  have set: "fingerprint_applied s1 \<noteq> None" by simp
  have first: "fingerprint_applied self = None \<longrightarrow>
            fingerprint_applied s1 = Some True
            \<and> (\<exists>fp g. generate_random_fingerprint (fingerprint_protector self) (random_state self)
                          = Inr (fp, g)
                        \<and> current_fingerprint s1 = Some fp)"
  proof
    assume n: "fingerprint_applied self = None"
    from apply_fingerprint_protection_first [OF n assms]
    show "fingerprint_applied s1 = Some True
            \<and> (\<exists>fp g. generate_random_fingerprint (fingerprint_protector self) (random_state self)
                          = Inr (fp, g)
                        \<and> current_fingerprint s1 = Some fp)"
      by auto
  qed
  have again: "apply_fingerprint_protection s1 = Inr s1"
    using set by (rule apply_fingerprint_protection_again)
  have later: "\<forall>evs s2. run_broken s1 evs = Inr s2 \<longrightarrow>
             fingerprint_applied s2 = fingerprint_applied s1
             \<and> current_fingerprint s2 = current_fingerprint s1
             \<and> apply_fingerprint_protection s2 = Inr s2"
  proof (intro allI impI)
    fix evs s2
    assume r: "run_broken s1 evs = Inr s2"
    from run_broken_fingerprint [OF set r]
    have k: "fingerprint_applied s2 = fingerprint_applied s1"
      "current_fingerprint s2 = current_fingerprint s1" by simp_all
    with set have "apply_fingerprint_protection s2 = Inr s2"
      by (simp add: apply_fingerprint_protection_again)
    with k show "fingerprint_applied s2 = fingerprint_applied s1
             \<and> current_fingerprint s2 = current_fingerprint s1
             \<and> apply_fingerprint_protection s2 = Inr s2" by simp
  qed
  have returns: "\<forall>evs. history_inv s1 \<longrightarrow> (\<exists>s2. run_broken s1 evs = Inr s2)"
    using run_broken_inv [OF _ set] by blast
  from set first again later returns show ?thesis by blast
qed

theorem apply_fingerprint_protection_idempotent_witness:
  "apply_fingerprint_protection (projr (apply_fingerprint_protection (PrivacyBrowser_broken_new (id, 0))))
     = apply_fingerprint_protection (PrivacyBrowser_broken_new (id, 0))
   \<and> fingerprint_applied (projr (apply_fingerprint_protection (PrivacyBrowser_broken_new (id, 0))))
     = Some True
   \<and> map_option user_agent
       (current_fingerprint (projr (apply_fingerprint_protection (PrivacyBrowser_broken_new (id, 0)))))
     = Some ''Mozilla/5.0 (Macintosh; Intel Mac OS X 10_15_7) AppleWebKit/537.36''"
proof -
  let ?s0 = "PrivacyBrowser_broken_new (id, 0)"
  let ?s1 = "projr (apply_fingerprint_protection ?s0)"
  have a: "apply_fingerprint_protection ?s0 = Inr ?s1"
    by (simp add: apply_fingerprint_protection_new)
  have n: "fingerprint_applied ?s0 = None"
    by (simp add: PrivacyBrowser_broken_new_def)
  have u: "map_option user_agent (current_fingerprint ?s1)
     = Some ''Mozilla/5.0 (Macintosh; Intel Mac OS X 10_15_7) AppleWebKit/537.36''"
    by (simp add: apply_fingerprint_protection_new generate_random_fingerprint_init)
       (simp add: FingerPrintProtector_init_def)
  from apply_fingerprint_protection_idempotent [OF a] n a u show ?thesis by simp
qed

subsection \<open>Loading a URL\<close>

lemma PrivacyBrowser_broken_init_eq:
  "PrivacyBrowser_broken_init (f, k) =
     Inr ((PrivacyBrowser_broken_new (f, k))\<lparr>
        status_bar := ''Ready - Enter a URL and press Go or Enter'',
        random_state := (f, k + 15),
        web_view := [SetUrl ''https://duckduckgo.com'', SetHttpUserAgent google_compatible_ua],
        fingerprint_applied := Some True,
        current_fingerprint :=
          Some (fst (projr (generate_random_fingerprint FingerPrintProtector_init (f, k))))\<rparr>)"
  by (simp add: PrivacyBrowser_broken_init_def apply_fingerprint_protection_new bind_err_Inr)

lemma PrivacyBrowser_broken_init_inv:
  "\<exists>s0. PrivacyBrowser_broken_init g = Inr s0 \<and> history_inv s0 \<and> fingerprint_applied s0 \<noteq> None"
  by (cases g) (auto simp: PrivacyBrowser_broken_init_eq history_inv_def PrivacyBrowser_broken_new_def)

lemma load_url_last:
  assumes "url = (if has_scheme (strip (address_bar self)) then strip (address_bar self)
                  else ''https://'' @ strip (address_bar self))"
  shows "\<exists>pre. history (load_url self) = pre @ [url]"
    and "web_view (load_url self) = web_view self @ [SetUrl url]"
  unfolding load_url_eq assms
  by (simp_all add: add_to_history_last)

lemma load_url_broken_last:
  assumes "url = (if has_scheme (strip (address_bar self)) then strip (address_bar self)
                  else ''https://'' @ strip (address_bar self))"
  shows "\<exists>pre. history (load_url_broken self) = pre @ [url]"
    and "web_view (load_url_broken self) = web_view self @ [SetUrl url]"
  unfolding load_url_broken_eq assms
  by (simp_all add: add_to_history_broken_last)

lemma reachable_has_scheme:
  "\<exists>s. run PrivacyBrowser_init evs = Inr s \<and> (\<forall>u \<in> set (history s). has_scheme u)"
  using run_inv [OF PrivacyBrowser_init_inv, of evs]
  by (auto simp: history_inv_def list_all_iff)

lemma reachable_broken_has_scheme:
  "\<exists>s0 s. PrivacyBrowser_broken_init g = Inr s0 \<and> run_broken s0 evs = Inr s
     \<and> (\<forall>u \<in> set (history s). has_scheme u)"
proof -
  from PrivacyBrowser_broken_init_inv [of g] obtain s0 where
    s0: "PrivacyBrowser_broken_init g = Inr s0" "history_inv s0" "fingerprint_applied s0 \<noteq> None"
    by blast
  from run_broken_inv [OF s0(2,3), of evs] obtain s where
    "run_broken s0 evs = Inr s" "history_inv s" by blast
  with s0(1) show ?thesis by (auto simp: history_inv_def list_all_iff)
qed

text \<open>
  C9.  \<open>load_url\<close> (in both files) strips the address-bar text and, unless the result
  starts with \<open>http://\<close> or \<open>https://\<close>, puts \<open>https://\<close> in front; the URL so obtained is
  sent to the engine and appended to the history.  The empty text is recorded as
  \<open>https://\<close>.  In every window reachable from \<open>__init__\<close> by any sequence of events, every
  entry of the history starts with \<open>http://\<close> or \<open>https://\<close>, and no handler raises on the way.
\<close>

theorem load_url_records_scheme:
  assumes "url = (if has_scheme (strip (address_bar self)) then strip (address_bar self)
                  else ''https://'' @ strip (address_bar self))"
    and "url_b = (if has_scheme (strip (address_bar b)) then strip (address_bar b)
                  else ''https://'' @ strip (address_bar b))"
  shows "has_scheme url
       \<and> (\<exists>pre. history (load_url self) = pre @ [url])
       \<and> web_view (load_url self) = web_view self @ [SetUrl url]
       \<and> has_scheme url_b
       \<and> (\<exists>pre. history (load_url_broken b) = pre @ [url_b])
       \<and> web_view (load_url_broken b) = web_view b @ [SetUrl url_b]
       \<and> (address_bar self = '''' \<longrightarrow> url = ''https://'')
       \<and> (address_bar b = '''' \<longrightarrow> url_b = ''https://'')
       \<and> (\<forall>evs. \<exists>s. run PrivacyBrowser_init evs = Inr s
              \<and> (\<forall>u \<in> set (history s). has_scheme u))
       \<and> (\<forall>g evs. \<exists>s0 s. PrivacyBrowser_broken_init g = Inr s0 \<and> run_broken s0 evs = Inr s
              \<and> (\<forall>u \<in> set (history s). has_scheme u))"
proof -
  have 1: "has_scheme url" "has_scheme url_b"
    unfolding assms by (rule has_scheme_url)+
  have 2: "address_bar self = '''' \<longrightarrow> url = ''https://''"
    "address_bar b = '''' \<longrightarrow> url_b = ''https://''"
    unfolding assms by (simp_all add: strip_def has_scheme_def startswith_def)
  from 1 2 load_url_last [OF assms(1)] load_url_broken_last [OF assms(2)]
    reachable_has_scheme reachable_broken_has_scheme
  show ?thesis by blast
qed

theorem load_url_records_scheme_witness:
  "history (load_url (PrivacyBrowser_init\<lparr>address_bar := ''  example.com ''\<rparr>))
     = [''https://example.com'']
   \<and> history (load_url (PrivacyBrowser_init\<lparr>address_bar := ''''\<rparr>)) = [''https://'']
   \<and> history (load_url_broken ((PrivacyBrowser_broken_new (id, 0))\<lparr>address_bar := '' http://a.b''\<rparr>))
     = [''http://a.b'']
   \<and> has_scheme ''https://example.com''"
proof -
  have s: "strip ''  example.com '' = ''example.com''" "strip '' http://a.b'' = ''http://a.b''"
    by (simp_all add: strip_def py_isspace_def)
  have u: "''https://example.com'' =
      (if has_scheme (strip (address_bar (PrivacyBrowser_init\<lparr>address_bar := ''  example.com ''\<rparr>)))
       then strip (address_bar (PrivacyBrowser_init\<lparr>address_bar := ''  example.com ''\<rparr>))
       else ''https://'' @ strip (address_bar (PrivacyBrowser_init\<lparr>address_bar := ''  example.com ''\<rparr>)))"
    by (simp add: s has_scheme_def startswith_def)
  have ub: "''http://a.b'' =
      (if has_scheme (strip (address_bar ((PrivacyBrowser_broken_new (id, 0))\<lparr>address_bar := '' http://a.b''\<rparr>)))
       then strip (address_bar ((PrivacyBrowser_broken_new (id, 0))\<lparr>address_bar := '' http://a.b''\<rparr>))
       else ''https://'' @ strip (address_bar ((PrivacyBrowser_broken_new (id, 0))\<lparr>address_bar := '' http://a.b''\<rparr>)))"
    by (simp add: s has_scheme_def startswith_def)
  have h1: "history (load_url (PrivacyBrowser_init\<lparr>address_bar := ''  example.com ''\<rparr>))
     = [''https://example.com'']"
    by (simp add: load_url_eq s has_scheme_def startswith_def add_to_history_def Let_def
          PrivacyBrowser_init_def slice_to_def)
  have h2: "history (load_url (PrivacyBrowser_init\<lparr>address_bar := ''''\<rparr>)) = [''https://'']"
    by (simp add: load_url_eq strip_def has_scheme_def startswith_def add_to_history_def Let_def
          PrivacyBrowser_init_def slice_to_def)
  have h3: "history (load_url_broken ((PrivacyBrowser_broken_new (id, 0))\<lparr>address_bar := '' http://a.b''\<rparr>))
     = [''http://a.b'']"
    by (simp add: load_url_broken_eq s has_scheme_def startswith_def add_to_history_broken_def Let_def
          PrivacyBrowser_broken_new_def slice_to_def)
  from load_url_records_scheme [OF u ub] h1 h2 h3 show ?thesis by simp
qed

text \<open>
  C3 (amended).  \<open>load_url\<close> validates nothing.  For every address-bar text, the empty
  and the malformed included, and every history with \<open>-1 \<le> i < n\<close>, it sends the stripped
  text (with \<open>https://\<close> in front when it has no scheme) to the engine, records it after
  the entries up to \<open>i\<close>, and moves the index to \<open>i + 1\<close>: the state of the history always
  changes.
\<close>

theorem load_url_never_rejects:
  assumes "- 1 \<le> current_index self" and "current_index self < int (length (history self))"
    and "url = (if has_scheme (strip (address_bar self)) then strip (address_bar self)
                else ''https://'' @ strip (address_bar self))"
    and "- 1 \<le> current_index b" and "current_index b < int (length (history b))"
    and "url_b = (if has_scheme (strip (address_bar b)) then strip (address_bar b)
                  else ''https://'' @ strip (address_bar b))"
  shows "history (load_url self) = take (nat (current_index self + 1)) (history self) @ [url]
       \<and> current_index (load_url self) = current_index self + 1
       \<and> web_view (load_url self) = web_view self @ [SetUrl url]
       \<and> history (load_url_broken b) = take (nat (current_index b + 1)) (history b) @ [url_b]
       \<and> current_index (load_url_broken b) = current_index b + 1
       \<and> web_view (load_url_broken b) = web_view b @ [SetUrl url_b]"
proof -
  have a: "history (load_url self) = take (nat (current_index self + 1)) (history self) @ [url]"
    "current_index (load_url self) = current_index self + 1"
    unfolding load_url_eq assms(3)
    using assms(1,2) by (simp_all add: add_to_history_history)
  have c: "history (load_url_broken b) = take (nat (current_index b + 1)) (history b) @ [url_b]"
    "current_index (load_url_broken b) = current_index b + 1"
    unfolding load_url_broken_eq assms(6)
    using assms(4,5) by (simp_all add: add_to_history_broken_history)
  from a c load_url_last(2) [OF assms(3)] load_url_broken_last(2) [OF assms(6)]
  show ?thesis by simp
qed

theorem load_url_never_rejects_witness:
  "history (load_url (PrivacyBrowser_init\<lparr>address_bar := ''not a url''\<rparr>)) = [''https://not a url'']
   \<and> current_index (load_url (PrivacyBrowser_init\<lparr>address_bar := ''not a url''\<rparr>)) = 0
   \<and> history (load_url_broken ((PrivacyBrowser_broken_new (id, 0))\<lparr>address_bar := ''''\<rparr>))
       = [''https://'']
   \<and> current_index (load_url_broken ((PrivacyBrowser_broken_new (id, 0))\<lparr>address_bar := ''''\<rparr>)) = 0"
  using load_url_never_rejects
    [of "PrivacyBrowser_init\<lparr>address_bar := ''not a url''\<rparr>" "''https://not a url''"
        "(PrivacyBrowser_broken_new (id, 0))\<lparr>address_bar := ''''\<rparr>" "''https://''"]
  by (simp add: PrivacyBrowser_init_def PrivacyBrowser_broken_new_def strip_def py_isspace_def
        has_scheme_def startswith_def)

text \<open>
  C3 as stated fails: with the empty text in the address bar of a new window, \<open>load_url\<close>
  takes the history from \<open>[]\<close> at index \<open>-1\<close> to \<open>[https://]\<close> at index 0.
\<close>

theorem load_url_empty_counterexample:
  "history (PrivacyBrowser_init\<lparr>address_bar := ''''\<rparr>) = []
   \<and> current_index (PrivacyBrowser_init\<lparr>address_bar := ''''\<rparr>) = - 1
   \<and> history (load_url (PrivacyBrowser_init\<lparr>address_bar := ''''\<rparr>)) = [''https://'']
   \<and> current_index (load_url (PrivacyBrowser_init\<lparr>address_bar := ''''\<rparr>)) = 0"
  by (simp add: load_url_def strip_def startswith_def add_to_history_def Let_def
        PrivacyBrowser_init_def slice_to_def update_navigation_buttons_def)

subsection \<open>Failed loads\<close>

lemma run_failures:
  "run self (replicate n (LoadFinished False))
     = Inr (if n = 0 then self
            else self\<lparr>status_bar := ''Failed to load page'',
                      web_view := web_view self @ replicate n Reload\<rparr>)"
proof (induction n arbitrary: self)
  case 0
  then show ?case by simp
next
  case (Suc n)
  show ?case
    by (simp add: Suc.IH on_load_finished_def)
qed

lemma run_broken_failures:
  "run_broken self (replicate n (Ui (LoadFinished False)))
     = Inr (if n = 0 then self
            else self\<lparr>status_bar := ''Failed to load page'',
                      web_view := web_view self @ replicate n Reload\<rparr>)"
proof (induction n arbitrary: self)
  case 0
  then show ?case by simp
next
  case (Suc n)
  show ?case
    by (simp add: Suc.IH on_load_finished_broken_def)
qed

lemma reloads_append: "reloads (xs @ ys) = reloads xs + reloads ys"
  by (simp add: reloads_def)

lemma reloads_replicate: "reloads (replicate n Reload) = n"
  by (simp add: reloads_def)

text \<open>
  C8 (amended).  When the engine reports a finished load with \<open>success = False\<close>,
  \<open>on_load_finished\<close> (in both files) shows the message \<open>Failed to load page\<close> and calls
  \<open>reload()\<close> exactly once for that report.  There is no bound on the retries: \<open>n\<close> failure
  reports in a row cause \<open>n\<close> reloads.
\<close>

theorem on_load_finished_failure_reloads:
  "on_load_finished self False
     = self\<lparr>status_bar := ''Failed to load page'', web_view := web_view self @ [Reload]\<rparr>
   \<and> on_load_finished_broken b False
     = Inr (b\<lparr>status_bar := ''Failed to load page'', web_view := web_view b @ [Reload]\<rparr>)
   \<and> reloads (web_view (on_load_finished self False)) = reloads (web_view self) + 1
   \<and> (\<exists>s. run self (replicate n (LoadFinished False)) = Inr s
          \<and> reloads (web_view s) = reloads (web_view self) + n)
   \<and> (\<exists>s. run_broken b (replicate n (Ui (LoadFinished False))) = Inr s
          \<and> reloads (web_view s) = reloads (web_view b) + n)"
  by (simp add: on_load_finished_def on_load_finished_broken_def run_failures run_broken_failures
        reloads_append reloads_replicate)
     (simp add: reloads_def)

theorem on_load_finished_failure_reloads_witness:
  "reloads (web_view (on_load_finished PrivacyBrowser_init False)) = 1
   \<and> status_bar (on_load_finished PrivacyBrowser_init False) = ''Failed to load page''"
  using on_load_finished_failure_reloads [of PrivacyBrowser_init "PrivacyBrowser_broken_new (id, 0)" 0]
  by (simp add: PrivacyBrowser_init_def reloads_def)

text \<open>
  C8 as stated fails: a load that keeps failing is reloaded every time.  Four failure
  reports on a new window cause four reloads, and no number bounds the reloads of a
  persistently failing load.
\<close>

theorem persistent_failure_counterexample:
  "run PrivacyBrowser_init
      [LoadFinished False, LoadFinished False, LoadFinished False, LoadFinished False]
     = Inr (PrivacyBrowser_init\<lparr>status_bar := ''Failed to load page'',
              web_view := web_view PrivacyBrowser_init @ [Reload, Reload, Reload, Reload]\<rparr>)
   \<and> reloads (web_view PrivacyBrowser_init @ [Reload, Reload, Reload, Reload]) = 4
   \<and> \<not> (\<exists>N. \<forall>n s. run PrivacyBrowser_init (replicate n (LoadFinished False)) = Inr s
           \<longrightarrow> reloads (web_view s) \<le> N)"
proof -
  have a: "run PrivacyBrowser_init
      [LoadFinished False, LoadFinished False, LoadFinished False, LoadFinished False]
     = Inr (PrivacyBrowser_init\<lparr>status_bar := ''Failed to load page'',
              web_view := web_view PrivacyBrowser_init @ [Reload, Reload, Reload, Reload]\<rparr>)"
    by (simp add: on_load_finished_def)
  have b: "reloads (web_view PrivacyBrowser_init @ [Reload, Reload, Reload, Reload]) = 4"
    by (simp add: reloads_def PrivacyBrowser_init_def)
  have c: "\<not> (\<exists>N. \<forall>n s. run PrivacyBrowser_init (replicate n (LoadFinished False)) = Inr s
           \<longrightarrow> reloads (web_view s) \<le> N)"
  proof
    assume "\<exists>N. \<forall>n s. run PrivacyBrowser_init (replicate n (LoadFinished False)) = Inr s
           \<longrightarrow> reloads (web_view s) \<le> N"
    then obtain N where N: "\<And>n s. run PrivacyBrowser_init (replicate n (LoadFinished False)) = Inr s
           \<Longrightarrow> reloads (web_view s) \<le> N" by blast
    have "reloads (web_view (PrivacyBrowser_init\<lparr>status_bar := ''Failed to load page'',
              web_view := web_view PrivacyBrowser_init @ replicate (Suc N) Reload\<rparr>)) \<le> N"
      by (rule N [of "Suc N"]) (simp add: run_failures del: replicate_Suc replicate.simps(2))
    then show False
      by (simp add: reloads_append reloads_replicate del: replicate_Suc replicate.simps(2))
  qed
  from a b c show ?thesis by blast
qed

end
